theory Spec2Isabelle
  imports Complex_Main "HOL-Library.Char_ord" "HOL-Library.List_Lexorder"
begin

section \<open>The observation table\<close>

text \<open>
  The notebook \<^verbatim>\<open>lincs_smiles\<close> works on \<^verbatim>\<open>adata.obs\<close>, a data frame with one row per
  sample. A row is a record of the columns the cells read or write. The column
  \<^verbatim>\<open>canonical_smiles\<close> changes its content along the notebook: it is absent on load
  (\<open>unit\<close>), holds a string or NaN after the merge (\<open>string option\<close>), and a string after
  \<^verbatim>\<open>astype('str')\<close>. The columns \<^verbatim>\<open>split\<close>, \<^verbatim>\<open>split1\<close> and \<^verbatim>\<open>random_split\<close> hold a
  value of the table only when their name is in \<open>obs_keys\<close>.
\<close>

record 's obs_row =
  obs_name :: string
  pert_id :: string
  cell_id :: string
  pert_dose :: real
  split :: string
  split1 :: string
  random_split :: string
  canonical_smiles :: 's

record 's anndata =
  obs :: "'s obs_row list"
  obs_keys :: "string list"

datatype error = ValueError | KeyError

definition with_smiles :: "'a obs_row \<Rightarrow> 'b \<Rightarrow> 'b obs_row" where
  "with_smiles r s =
     \<lparr>obs_name = obs_name r, pert_id = pert_id r, cell_id = cell_id r,
      pert_dose = pert_dose r, split = split r, split1 = split1 r,
      random_split = random_split r, canonical_smiles = s\<rparr>"

definition add_key :: "string \<Rightarrow> string list \<Rightarrow> string list" where
  "add_key k ks = (if k \<in> set ks then ks else ks @ [k])"

subsection \<open>Pandas and numpy primitives\<close>

text \<open>\<^verbatim>\<open>frame[mask]\<close>: the rows at which the boolean mask is true.\<close>

definition mask_select :: "'a list \<Rightarrow> bool list \<Rightarrow> 'a list" where
  "mask_select xs bs = map fst (filter snd (zip xs bs))"

text \<open>\<^verbatim>\<open>series.isin(values)\<close>.\<close>

definition isin :: "'a list \<Rightarrow> 'a list \<Rightarrow> bool list" where
  "isin col vals = map (\<lambda>v. v \<in> set vals) col"

text \<open>
  \<^verbatim>\<open>series.value_counts()\<close>: every value that occurs, with its number of occurrences.
  Pandas orders the result by count; the notebook only reads which values carry which
  count, so the order of first occurrence is kept here. (For a categorical column
  pandas also lists the categories that do not occur, with count 0; no row carries
  such a value.)
\<close>

definition value_counts :: "'a list \<Rightarrow> ('a \<times> nat) list" where
  "value_counts col = map (\<lambda>v. (v, count_list col v)) (remdups col)"

text \<open>\<^verbatim>\<open>counts < n\<close>, and \<^verbatim>\<open>flags.index[flags]\<close>, \<^verbatim>\<open>flags.index[~flags]\<close>.\<close>

definition counts_below :: "('a \<times> nat) list \<Rightarrow> nat \<Rightarrow> ('a \<times> bool) list" where
  "counts_below vc n = map (\<lambda>(v, c). (v, c < n)) vc"

definition index_where :: "('a \<times> bool) list \<Rightarrow> 'a list" where
  "index_where flags = map fst (filter snd flags)"

definition index_where_not :: "('a \<times> bool) list \<Rightarrow> 'a list" where
  "index_where_not flags = map fst (filter (\<lambda>p. \<not> snd p) flags)"

text \<open>\<^verbatim>\<open>np.unique\<close>: the distinct values, sorted.\<close>

definition np_unique :: "string list \<Rightarrow> string list" where
  "np_unique xs = sort (remdups xs)"

section \<open>Reference join\<close>

text \<open>
  \<^verbatim>\<open>adata.obs.reset_index().merge(reference_df, how="left").set_index('index')\<close>.
  The reference frame has the columns \<^verbatim>\<open>pert_id\<close> and \<^verbatim>\<open>canonical_smiles\<close>, the only
  common column is \<^verbatim>\<open>pert_id\<close>. A left merge walks the left rows in order and emits one
  row per reference row with the same key, or one row with NaN where there is none.
\<close>

type_synonym reference_df = "(string \<times> string option) list"

definition matches :: "reference_df \<Rightarrow> string \<Rightarrow> string option list" where
  "matches ref k = map snd (filter (\<lambda>p. fst p = k) ref)"

definition merge_left :: "unit obs_row list \<Rightarrow> reference_df \<Rightarrow> string option obs_row list" where
  "merge_left left ref =
     concat (map (\<lambda>r. case matches ref (pert_id r) of
                         [] \<Rightarrow> [with_smiles r None]
                       | ms \<Rightarrow> map (with_smiles r) ms) left)"

text \<open>
  The assignment \<^verbatim>\<open>adata.obs = ...\<close> goes through AnnData's setter, which raises
  ValueError when the length of the frame differs from the number of observations.
\<close>

definition merge_step :: "unit anndata \<Rightarrow> reference_df \<Rightarrow> error + string option anndata" where
  "merge_step adata ref =
     (let df = merge_left (obs adata) ref in
      if length df \<noteq> length (obs adata) then Inl ValueError
      else Inr \<lparr>obs = df, obs_keys = add_key ''canonical_smiles'' (obs_keys adata)\<rparr>)"

section \<open>Validity filters\<close>

text \<open>\<^verbatim>\<open>astype('str')\<close> turns NaN into the string \<^verbatim>\<open>nan\<close>.\<close>

fun astype_str :: "string option \<Rightarrow> string" where
  "astype_str None = ''nan''"
| "astype_str (Some s) = s"

definition astype_row :: "string option obs_row \<Rightarrow> string obs_row" where
  "astype_row r = with_smiles r (astype_str (canonical_smiles r))"

definition filter_invalid_smiles :: "string option anndata \<Rightarrow> string anndata" where
  "filter_invalid_smiles adata =
     (let rows = map astype_row (obs adata);
          invalid_smiles = isin (map canonical_smiles rows) [''-666'', ''restricted'', ''nan'']
      in \<lparr>obs = mask_select rows (map Not invalid_smiles), obs_keys = obs_keys adata\<rparr>)"

definition filter_dose :: "'s anndata \<Rightarrow> 's anndata" where
  "filter_dose adata =
     (let cond = isin (map pert_dose (obs adata)) [- 666]
      in adata\<lparr>obs := mask_select (obs adata) (map Not cond)\<rparr>)"

definition filter_replicates :: "string anndata \<Rightarrow> string anndata" where
  "filter_replicates adata =
     (let drugs_validation = counts_below (value_counts (map canonical_smiles (obs adata))) 6;
          valid_drugs = index_where_not drugs_validation;
          cond = isin (map canonical_smiles (obs adata)) valid_drugs
      in adata\<lparr>obs := mask_select (obs adata) cond\<rparr>)"

text \<open>
  \<^verbatim>\<open>check_smiles\<close> calls RDKit: \<open>MolFromSmiles\<close> returns no molecule when the string
  does not parse, \<open>SanitizeMol\<close> raises on invalid chemistry (here: returns False).
  Both are parameters of the model.
\<close>

definition check_smiles :: "(string \<Rightarrow> 'm option) \<Rightarrow> ('m \<Rightarrow> bool) \<Rightarrow> string \<Rightarrow> bool" where
  "check_smiles MolFromSmiles SanitizeMol smiles =
     (case MolFromSmiles smiles of
        None \<Rightarrow> False
      | Some m \<Rightarrow> (if SanitizeMol m then True else False))"

text \<open>
  \<^verbatim>\<open>remove_invalid_smiles(dataframe, smiles_key, return_condition=True)\<close>: the lookup
  \<^verbatim>\<open>_validation_map[x]\<close> raises KeyError on a key that is not in the dictionary.
\<close>

fun lookup_all :: "('k \<rightharpoonup> 'v) \<Rightarrow> 'k list \<Rightarrow> error + 'v list" where
  "lookup_all m [] = Inr []"
| "lookup_all m (k # ks) =
     (case m k of
        None \<Rightarrow> Inl KeyError
      | Some v \<Rightarrow> (case lookup_all m ks of Inl e \<Rightarrow> Inl e | Inr vs \<Rightarrow> Inr (v # vs)))"

definition remove_invalid_smiles ::
  "(string \<Rightarrow> bool) \<Rightarrow> string obs_row list \<Rightarrow> error + bool list" where
  "remove_invalid_smiles chk dataframe =
     (let unique_drugs = np_unique (map canonical_smiles dataframe);
          valid_drugs = map chk unique_drugs;
          validation_map = map_of (zip unique_drugs valid_drugs)
      in lookup_all validation_map (map canonical_smiles dataframe))"

definition filter_rdkit :: "(string \<Rightarrow> bool) \<Rightarrow> string anndata \<Rightarrow> error + string anndata" where
  "filter_rdkit chk adata =
     (case remove_invalid_smiles chk (obs adata) of
        Inl e \<Rightarrow> Inl e
      | Inr cond \<Rightarrow> Inr (adata\<lparr>obs := mask_select (obs adata) cond\<rparr>))"

text \<open>The cells from the merge to the RDKit check, in the notebook's order.\<close>

definition join_and_filter ::
  "(string \<Rightarrow> bool) \<Rightarrow> unit anndata \<Rightarrow> reference_df \<Rightarrow> error + string anndata" where
  "join_and_filter chk adata ref =
     (case merge_step adata ref of
        Inl e \<Rightarrow> Inl e
      | Inr merged \<Rightarrow>
          filter_rdkit chk (filter_replicates (filter_dose (filter_invalid_smiles merged))))"

section \<open>Split assignment\<close>

text \<open>
  \<^verbatim>\<open>sklearn.model_selection.train_test_split(xs, test_size, random_state)\<close> is a
  parameter of the model: it returns two lists, or raises ValueError (for instance
  when one of the two parts would be empty).
\<close>

type_synonym splitter = "real \<Rightarrow> nat \<Rightarrow> string list \<Rightarrow> error + (string list \<times> string list)"

text \<open>\<^verbatim>\<open>obs.loc[mask, 'split'] = v\<close> and \<^verbatim>\<open>obs.loc[mask, 'split1'] = v\<close>.\<close>

definition loc_set_split :: "'s obs_row list \<Rightarrow> bool list \<Rightarrow> string \<Rightarrow> 's obs_row list" where
  "loc_set_split rows cond v = map (\<lambda>(r, b). if b then r\<lparr>split := v\<rparr> else r) (zip rows cond)"

definition loc_set_split1 :: "'s obs_row list \<Rightarrow> bool list \<Rightarrow> string \<Rightarrow> 's obs_row list" where
  "loc_set_split1 rows cond v = map (\<lambda>(r, b). if b then r\<lparr>split1 := v\<rparr> else r) (zip rows cond)"

definition add_split :: "splitter \<Rightarrow> string anndata \<Rightarrow> error + string anndata" where
  "add_split train_test_split adata =
     (if ''split'' \<notin> set (obs_keys adata) then
        (let unique_drugs = np_unique (map canonical_smiles (obs adata)) in
         case train_test_split (2 / 10) 42 unique_drugs of
           Inl e \<Rightarrow> Inl e
         | Inr (drugs_train, drugs_tmp) \<Rightarrow>
             (case train_test_split (5 / 10) 42 drugs_tmp of
                Inl e \<Rightarrow> Inl e
              | Inr (drugs_val, drugs_test) \<Rightarrow>
                  (let rows0 = map (\<lambda>r. r\<lparr>split := ''train''\<rparr>) (obs adata);
                       rows1 = loc_set_split rows0 (isin (map canonical_smiles rows0) drugs_val) ''test'';
                       rows2 = loc_set_split rows1 (isin (map canonical_smiles rows1) drugs_test) ''ood''
                   in Inr \<lparr>obs = rows2, obs_keys = add_key ''split'' (obs_keys adata)\<rparr>)))
      else Inr adata)"

subsection \<open>Shrink-back of the test split\<close>

definition pert_count_treshold :: nat where
  "pert_count_treshold = 5"

definition cov_count_treshold :: nat where
  "cov_count_treshold = 20"

text \<open>
  The two cells under the heading ``Check that \<^verbatim>\<open>.obs.split=='test'\<close> has sufficient
  samples for \<^verbatim>\<open>pert_id\<close> and \<^verbatim>\<open>cell_id\<close>''. They run after the split cell, so the
  column \<^verbatim>\<open>split\<close> exists.
\<close>

definition shrink_cond :: "'s obs_row list \<Rightarrow> bool list" where
  "shrink_cond rows =
     (let cond_test = isin (map split rows) [''test''];
          pert_id_neg = counts_below (value_counts (mask_select (map pert_id rows) cond_test))
                          pert_count_treshold;
          cov_id_neg = counts_below (value_counts (mask_select (map cell_id rows) cond_test))
                          cov_count_treshold;
          cond = map2 (\<and>) cond_test (isin (map pert_id rows) (index_where pert_id_neg))
      in map2 (\<or>) cond (map2 (\<and>) cond_test (isin (map cell_id rows) (index_where cov_id_neg))))"

definition shrink_back :: "'s anndata \<Rightarrow> 's anndata" where
  "shrink_back adata =
     (let cond = shrink_cond (obs adata);
          rows1 = map (\<lambda>r. r\<lparr>split1 := split r\<rparr>) (obs adata)
      in \<lparr>obs = loc_set_split1 rows1 cond ''train'',
          obs_keys = add_key ''split1'' (obs_keys adata)\<rparr>)"

subsection \<open>Random split\<close>

text \<open>
  \<^verbatim>\<open>obs.loc[labels, 'random_split'] = v\<close> selects by row label and raises KeyError on a
  label that is not in the index.
\<close>

definition loc_labels_set ::
  "'s obs_row list \<Rightarrow> string list \<Rightarrow> string \<Rightarrow> error + 's obs_row list" where
  "loc_labels_set rows labels v =
     (if \<not> set labels \<subseteq> set (map obs_name rows) then Inl KeyError
      else Inr (map (\<lambda>r. if obs_name r \<in> set labels then r\<lparr>random_split := v\<rparr> else r) rows))"

definition add_random_split :: "splitter \<Rightarrow> 's anndata \<Rightarrow> error + 's anndata" where
  "add_random_split train_test_split adata =
     (case train_test_split (15 / 100) 42 (map obs_name (obs adata)) of
        Inl e \<Rightarrow> Inl e
      | Inr (train_obs, val_test_obs) \<Rightarrow>
          (case train_test_split (5 / 10) 42 val_test_obs of
             Inl e \<Rightarrow> Inl e
           | Inr (val_obs, test_obs) \<Rightarrow>
               (let rows0 = map (\<lambda>r. r\<lparr>random_split := []\<rparr>) (obs adata) in
                case loc_labels_set rows0 train_obs ''train'' of
                  Inl e \<Rightarrow> Inl e
                | Inr rows1 \<Rightarrow>
                    (case loc_labels_set rows1 val_obs ''test'' of
                       Inl e \<Rightarrow> Inl e
                     | Inr rows2 \<Rightarrow>
                         (case loc_labels_set rows2 test_obs ''ood'' of
                            Inl e \<Rightarrow> Inl e
                          | Inr rows3 \<Rightarrow>
                              Inr \<lparr>obs = rows3,
                                   obs_keys = add_key ''random_split'' (obs_keys adata)\<rparr>)))))"

section \<open>The notebook from load to write\<close>

text \<open>
  The cells that change \<^verbatim>\<open>adata\<close>, in the notebook's order; the cells between them only
  read it (the DrugBank overlap, the value counts that are displayed). The result is
  what \<^verbatim>\<open>adata.write\<close> receives.
\<close>

definition lincs_smiles ::
  "(string \<Rightarrow> bool) \<Rightarrow> splitter \<Rightarrow> unit anndata \<Rightarrow> reference_df \<Rightarrow> error + string anndata" where
  "lincs_smiles chk train_test_split adata ref =
     (case join_and_filter chk adata ref of
        Inl e \<Rightarrow> Inl e
      | Inr filtered \<Rightarrow>
          (case add_split train_test_split filtered of
             Inl e \<Rightarrow> Inl e
           | Inr labelled \<Rightarrow> add_random_split train_test_split (shrink_back labelled)))"

section \<open>Batch computation of the embeddings\<close>

text \<open>
  The cell of \<^verbatim>\<open>7_compute_embeddings.ipynb\<close>. The file system is a state \<open>'w\<close>; a call
  of the outside returns the state it leaves and the exception it raised, if any.
  \<open>Exception\<close> stands for an instance of Python's class \<^verbatim>\<open>Exception\<close> with its
  \<^verbatim>\<open>str(e)\<close>, \<open>BaseException\<close> for one that \<^verbatim>\<open>except Exception\<close> does not catch
  (KeyboardInterrupt, SystemExit). The path functions, the two directories,
  \<^verbatim>\<open>os.makedirs\<close> and \<^verbatim>\<open>embedding_rdkit.compute_rdkit_embeddings\<close> are parameters.
\<close>

datatype exn = Exception string | BaseException string

record 'w outside =
  DATA_DIR :: string
  EMBEDDING_DIR :: string
  path_join :: "string list \<Rightarrow> string"
  path_splitext :: "string \<Rightarrow> string \<times> string"
  path_dirname :: "string \<Rightarrow> string"
  makedirs :: "string \<Rightarrow> 'w \<Rightarrow> exn option \<times> 'w"
  compute_rdkit_embeddings :: "string \<Rightarrow> string \<Rightarrow> string \<Rightarrow> 'w \<Rightarrow> exn option \<times> 'w"

definition datasets :: "(string \<times> string) list" where
  "datasets =
     [(''lincs_smiles.h5ad'', ''SMILES''),
      (''lincs_full_smiles.h5ad'', ''smiles''),
      (''sciplex_complete.h5ad'', ''SMILES''),
      (''adata_MCF7.h5ad'', ''SMILES''),
      (''adata_MCF7_lincs_genes.h5ad'', ''SMILES''),
      (''adata_K562.h5ad'', ''SMILES''),
      (''adata_K562_lincs_genes.h5ad'', ''SMILES''),
      (''adata_A549.h5ad'', ''SMILES''),
      (''adata_A549_lincs_genes.h5ad'', ''SMILES''),
      (''sciplex_complete_subset_lincs_genes_v2.h5ad'', ''SMILES''),
      (''sciplex_complete_middle_subset_v2.h5ad'', ''SMILES''),
      (''sciplex_complete_middle_subset_lincs_genes_v2.h5ad'', ''SMILES''),
      (''sciplex_complete_v2.h5ad'', ''SMILES''),
      (''sciplex_complete_lincs_genes_v2.h5ad'', ''SMILES'')]"

definition h5ad_path :: "'w outside \<Rightarrow> string \<Rightarrow> string" where
  "h5ad_path E dataset = path_join E [DATA_DIR E, dataset]"

definition output_path :: "'w outside \<Rightarrow> string \<Rightarrow> string" where
  "output_path E dataset =
     (let base_name = fst (path_splitext E dataset);
          output_filename = base_name @ ''_rdkit2D_embedding.parquet''
      in path_join E [EMBEDDING_DIR E, ''rdkit'', output_filename])"

definition error_line :: "string \<Rightarrow> string \<Rightarrow> string" where
  "error_line dataset msg = ''Error processing '' @ dataset @ '': '' @ msg"

text \<open>
  The loop. The result is the exception that left the loop, if any, the state of the
  file system, and the lines written with \<^verbatim>\<open>tqdm.write\<close>.
\<close>

fun compute_all ::
  "'w outside \<Rightarrow> (string \<times> string) list \<Rightarrow> 'w \<Rightarrow> string list \<Rightarrow> exn option \<times> 'w \<times> string list" where
  "compute_all E [] w out = (None, w, out)"
| "compute_all E ((dataset, smiles_key) # rest) w out =
     (case makedirs E (path_dirname E (output_path E dataset)) w of
        (Some e, w1) \<Rightarrow> (Some e, w1, out)
      | (None, w1) \<Rightarrow>
          (case compute_rdkit_embeddings E (h5ad_path E dataset) (output_path E dataset) smiles_key w1 of
             (None, w2) \<Rightarrow> compute_all E rest w2 out
           | (Some (Exception msg), w2) \<Rightarrow> compute_all E rest w2 (out @ [error_line dataset msg])
           | (Some (BaseException msg), w2) \<Rightarrow> (Some (BaseException msg), w2, out)))"

section \<open>Concrete tables\<close>

text \<open>Small inputs on which the functions above are run in the theorems below.\<close>

definition mk_obs :: "string \<Rightarrow> string \<Rightarrow> string \<Rightarrow> real \<Rightarrow> string \<Rightarrow> 's \<Rightarrow> 's obs_row" where
  "mk_obs name pid cell dose sp s =
     \<lparr>obs_name = name, pert_id = pid, cell_id = cell, pert_dose = dose, split = sp,
      split1 = [], random_split = [], canonical_smiles = s\<rparr>"

text \<open>
  A table that already has a \<^verbatim>\<open>split\<close> column, as the LINCS file of the notebook has:
  six valid DMSO rows, one with the dose sentinel, one whose reference entry is a
  sentinel, one without reference entry, one drug with a single replicate.
\<close>

definition lincs_demo :: "unit anndata" where
  "lincs_demo =
     \<lparr>obs = [mk_obs ''w1'' ''DMSO'' ''A375'' 10 ''train'' (),
             mk_obs ''w2'' ''DMSO'' ''A375'' 10 ''train'' (),
             mk_obs ''w3'' ''DMSO'' ''A375'' 10 ''train'' (),
             mk_obs ''w4'' ''DMSO'' ''PC3'' 10 ''test'' (),
             mk_obs ''w5'' ''DMSO'' ''PC3'' 10 ''test'' (),
             mk_obs ''w6'' ''DMSO'' ''PC3'' 10 ''test'' (),
             mk_obs ''w7'' ''DMSO'' ''PC3'' (- 666) ''test'' (),
             mk_obs ''w8'' ''H2O'' ''PC3'' 10 ''train'' (),
             mk_obs ''w9'' ''BRD-X'' ''PC3'' 10 ''train'' (),
             mk_obs ''w10'' ''BRD-K1'' ''PC3'' 5 ''ood'' ()],
      obs_keys = [''pert_id'', ''cell_id'', ''pert_dose'', ''split'']\<rparr>"

definition reference_demo :: reference_df where
  "reference_demo =
     [(''DMSO'', Some ''CS(=O)C''), (''H2O'', Some ''-666''), (''BRD-K1'', Some ''CCO'')]"

definition lincs_demo_filtered :: "string anndata" where
  "lincs_demo_filtered =
     \<lparr>obs = map (\<lambda>r. with_smiles r ''CS(=O)C'') (take 6 (obs lincs_demo)),
      obs_keys = obs_keys lincs_demo @ [''canonical_smiles'']\<rparr>"

definition lincs_demo_out :: "string anndata" where
  "lincs_demo_out =
     \<lparr>obs = map2 (\<lambda>r l. r\<lparr>split1 := ''train'', random_split := l\<rparr>) (obs lincs_demo_filtered)
              [''train'', ''train'', ''train'', ''test'', ''test'', ''ood''],
      obs_keys = obs_keys lincs_demo_filtered @ [''split1'', ''random_split'']\<rparr>"

text \<open>A splitter that cuts its input in the middle, and a parser that accepts every string.\<close>

definition halves :: splitter where
  "halves test_size random_state xs =
     Inr (take (length xs - length xs div 2) xs, drop (length xs - length xs div 2) xs)"

definition parse_any :: "string \<Rightarrow> string option" where
  "parse_any s = Some s"

definition sanitize_any :: "string \<Rightarrow> bool" where
  "sanitize_any m = True"

text \<open>One observation whose key occurs twice in the reference table, and one without entry.\<close>

definition pair_demo :: "unit anndata" where
  "pair_demo =
     \<lparr>obs = [mk_obs ''w1'' ''DMSO'' ''A375'' 10 [] (), mk_obs ''w2'' ''BRD-X'' ''A375'' 10 [] ()],
      obs_keys = [''pert_id'', ''cell_id'', ''pert_dose'']\<rparr>"

definition reference_twice :: reference_df where
  "reference_twice = [(''DMSO'', Some ''CS(=O)C''), (''DMSO'', Some ''CS(C)=O'')]"

definition pair_demo_merged :: "string option anndata" where
  "pair_demo_merged =
     \<lparr>obs = [mk_obs ''w1'' ''DMSO'' ''A375'' 10 [] (Some ''CS(=O)C''),
             mk_obs ''w2'' ''BRD-X'' ''A375'' 10 [] None],
      obs_keys = [''pert_id'', ''cell_id'', ''pert_dose'', ''canonical_smiles'']\<rparr>"

text \<open>A filtered table without \<^verbatim>\<open>split\<close> column: four identities on six rows.\<close>

definition unsplit_demo :: "string anndata" where
  "unsplit_demo =
     \<lparr>obs = [mk_obs ''w1'' ''P1'' ''A375'' 10 [] ''CCO'',
             mk_obs ''w2'' ''P1'' ''PC3'' 10 [] ''CCO'',
             mk_obs ''w3'' ''P2'' ''A375'' 10 [] ''CCN'',
             mk_obs ''w4'' ''P3'' ''A375'' 10 [] ''CS(=O)C'',
             mk_obs ''w5'' ''P4'' ''A375'' 10 [] ''c1ccccc1'',
             mk_obs ''w6'' ''P3'' ''PC3'' 10 [] ''CS(=O)C''],
      obs_keys = [''pert_id'', ''cell_id'', ''pert_dose'', ''canonical_smiles'']\<rparr>"

definition unsplit_demo_labelled :: "string anndata" where
  "unsplit_demo_labelled =
     \<lparr>obs = map2 (\<lambda>r l. r\<lparr>split := l\<rparr>) (obs unsplit_demo)
              [''train'', ''train'', ''train'', ''test'', ''ood'', ''test''],
      obs_keys = obs_keys unsplit_demo @ [''split'']\<rparr>"

text \<open>
  A labelled table: twenty test rows of one cell type, nineteen of them of one
  perturbation, then one ood row and one train row.
\<close>

definition shrink_demo :: "string anndata" where
  "shrink_demo =
     \<lparr>obs = map (\<lambda>n. mk_obs n ''BRD-P'' ''A375'' 10 ''test'' ''CCO'')
                [''t01'', ''t02'', ''t03'', ''t04'', ''t05'', ''t06'', ''t07'', ''t08'', ''t09'', ''t10'',
                 ''t11'', ''t12'', ''t13'', ''t14'', ''t15'', ''t16'', ''t17'', ''t18'', ''t19'']
            @ [mk_obs ''t20'' ''BRD-Q'' ''A375'' 10 ''test'' ''CCN'',
               mk_obs ''o1'' ''BRD-R'' ''HS27A'' 10 ''ood'' ''CS(=O)C'',
               mk_obs ''n1'' ''DMSO'' ''A375'' 10 ''train'' ''CS(C)=O''],
      obs_keys = [''pert_id'', ''cell_id'', ''pert_dose'', ''canonical_smiles'', ''split'']\<rparr>"

text \<open>
  Twenty test rows of one cell type: two perturbations with three rows each that share
  one identity, and a third perturbation with fourteen rows.
\<close>

definition pert_demo :: "string anndata" where
  "pert_demo =
     \<lparr>obs = map (\<lambda>n. mk_obs n ''BRD-A'' ''A375'' 10 ''test'' ''CCO'') [''a1'', ''a2'', ''a3'']
            @ map (\<lambda>n. mk_obs n ''BRD-B'' ''A375'' 10 ''test'' ''CCO'') [''b1'', ''b2'', ''b3'']
            @ map (\<lambda>n. mk_obs n ''BRD-C'' ''A375'' 10 ''test'' ''CCN'')
                [''c01'', ''c02'', ''c03'', ''c04'', ''c05'', ''c06'', ''c07'', ''c08'', ''c09'', ''c10'',
                 ''c11'', ''c12'', ''c13'', ''c14''],
      obs_keys = [''pert_id'', ''cell_id'', ''pert_dose'', ''canonical_smiles'', ''split'']\<rparr>"

text \<open>
  An outside for the embedding loop: the state is the list of files written, every
  directory can be made, and the computation fails on the lower-case key.
\<close>

definition outside_demo :: "string list outside" where
  "outside_demo =
     \<lparr>DATA_DIR = ''data'', EMBEDDING_DIR = ''embeddings'',
      path_join = (\<lambda>ps. foldr (\<lambda>a b. if b = [] then a else a @ ''/'' @ b) ps []),
      path_splitext = (\<lambda>p. (take (length p - 5) p, drop (length p - 5) p)),
      path_dirname = (\<lambda>p. ''embeddings/rdkit''),
      makedirs = (\<lambda>d w. (None, w)),
      compute_rdkit_embeddings =
        (\<lambda>h5ad out_path smiles_key w.
           if smiles_key = ''smiles'' then (Some (Exception ''smiles''), w)
           else (None, w @ [out_path]))\<rparr>"

section \<open>Masks, counts and lookups\<close>

lemma with_smiles_sel [simp]:
  "obs_name (with_smiles r s) = obs_name r" "pert_id (with_smiles r s) = pert_id r"
  "cell_id (with_smiles r s) = cell_id r" "pert_dose (with_smiles r s) = pert_dose r"
  "split (with_smiles r s) = split r" "split1 (with_smiles r s) = split1 r"
  "random_split (with_smiles r s) = random_split r" "canonical_smiles (with_smiles r s) = s"
  by (simp_all add: with_smiles_def)

lemma set_add_key: "set (add_key k ks) = insert k (set ks)"
  by (auto simp: add_key_def)

lemma mask_select_map: "mask_select xs (map P xs) = filter P xs"
  by (induction xs) (simp_all add: mask_select_def)

lemma mask_select_map2: "mask_select (map f xs) (map P xs) = map f (filter P xs)"
  by (induction xs) (simp_all add: mask_select_def)

lemma isin_map: "isin (map f xs) vals = map (\<lambda>x. f x \<in> set vals) xs"
  by (simp add: isin_def)

lemma zip_map_same: "zip xs (map P xs) = map (\<lambda>x. (x, P x)) xs"
  by (induction xs) simp_all

lemma map2_map_same: "map2 f (map P xs) (map Q xs) = map (\<lambda>x. f (P x) (Q x)) xs"
  by (induction xs) simp_all

lemma count_list_map_filter:
  "count_list (map f (filter (\<lambda>x. P (f x)) xs)) v = (if P v then count_list (map f xs) v else 0)"
  by (induction xs) auto

lemma count_list_length_filter: "count_list (map f xs) v = length (filter (\<lambda>x. f x = v) xs)"
  by (induction xs) auto

lemma count_list_map_filter_conj:
  "count_list (map f (filter T xs)) v = length (filter (\<lambda>x. T x \<and> f x = v) xs)"
  by (induction xs) auto

lemma set_index_where_below:
  "set (index_where (counts_below (value_counts col) n)) = {v \<in> set col. count_list col v < n}"
  by (force simp: index_where_def counts_below_def value_counts_def)

lemma set_index_where_not_below:
  "set (index_where_not (counts_below (value_counts col) n)) = {v \<in> set col. \<not> count_list col v < n}"
  by (force simp: index_where_not_def counts_below_def value_counts_def)

lemma lookup_all_total:
  "\<forall>k \<in> set ks. m k = Some (f k) \<Longrightarrow> lookup_all m ks = Inr (map f ks)"
  by (induction ks) auto

lemma map_of_zip_map: "k \<in> set ks \<Longrightarrow> map_of (zip ks (map f ks)) k = Some (f k)"
  by (induction ks) auto

section \<open>What each cell does to the rows\<close>

subsection \<open>The merge\<close>

lemma length_merge_left_ge: "length left \<le> length (merge_left left ref)"
proof (induction left)
  case Nil
  show ?case by (simp add: merge_left_def)
next
  case (Cons r rs)
  then show ?case by (auto simp: merge_left_def split: list.splits)
qed

lemma merge_left_Cons:
  "merge_left (r # rs) ref =
     (case matches ref (pert_id r) of [] \<Rightarrow> [with_smiles r None] | ms \<Rightarrow> map (with_smiles r) ms)
     @ merge_left rs ref"
  by (simp add: merge_left_def)

text \<open>
  When the merged frame is as long as the table, every row found at most one
  reference row, and the frame is the table with one identity attached to each row.
\<close>

lemma merge_left_same_length:
  "length (merge_left left ref) = length left \<Longrightarrow>
   merge_left left ref =
     map (\<lambda>r. with_smiles r (case matches ref (pert_id r) of [] \<Rightarrow> None | s # _ \<Rightarrow> s)) left"
proof (induction left)
  case Nil
  show ?case by (simp add: merge_left_def)
next
  case (Cons r rs)
  have ge: "length rs \<le> length (merge_left rs ref)" by (rule length_merge_left_ge)
  show ?case
  proof (cases "matches ref (pert_id r)")
    case Nil
    with Cons show ?thesis by (simp add: merge_left_Cons)
  next
    case (Cons s ss)
    with Cons.prems have "length ss + length (merge_left rs ref) = length rs"
      by (simp add: merge_left_Cons)
    with ge have "length ss = 0" and len: "length (merge_left rs ref) = length rs"
      by arith+
    then have "ss = []" by simp
    with Cons len Cons.IH show ?thesis by (simp add: merge_left_Cons)
  qed
qed

lemma merge_step_Inr:
  "merge_step adata ref = Inr merged \<Longrightarrow>
   obs merged =
     map (\<lambda>r. with_smiles r (case matches ref (pert_id r) of [] \<Rightarrow> None | s # _ \<Rightarrow> s)) (obs adata)"
  by (auto simp: merge_step_def Let_def merge_left_same_length split: if_splits)

lemma merge_step_keys:
  "merge_step adata ref = Inr merged \<Longrightarrow>
   obs_keys merged = add_key ''canonical_smiles'' (obs_keys adata)"
  by (auto simp: merge_step_def Let_def split: if_splits)

subsection \<open>The filters\<close>

lemma obs_filter_invalid_smiles:
  "obs (filter_invalid_smiles adata) =
     filter (\<lambda>r. canonical_smiles r \<notin> set [''-666'', ''restricted'', ''nan''])
       (map astype_row (obs adata))"
  unfolding filter_invalid_smiles_def Let_def isin_map map_map
  by (simp add: mask_select_map2 filter_map comp_def del: set_simps)

lemma obs_filter_dose:
  "obs (filter_dose adata) = filter (\<lambda>r. pert_dose r \<noteq> - 666) (obs adata)"
  unfolding filter_dose_def Let_def isin_map map_map
  by (simp add: mask_select_map comp_def)

lemma obs_filter_replicates:
  "obs (filter_replicates adata) =
     filter (\<lambda>r. 6 \<le> count_list (map canonical_smiles (obs adata)) (canonical_smiles r)) (obs adata)"
proof -
  have "\<And>r. r \<in> set (obs adata) \<Longrightarrow>
      (canonical_smiles r
         \<in> set (index_where_not (counts_below (value_counts (map canonical_smiles (obs adata))) 6)))
      = (6 \<le> count_list (map canonical_smiles (obs adata)) (canonical_smiles r))"
    by (auto simp: set_index_where_not_below)
  then show ?thesis
    unfolding filter_replicates_def Let_def isin_map
    by (simp add: mask_select_map cong: filter_cong)
qed

lemma obs_keys_filters:
  "obs_keys (filter_invalid_smiles a) = obs_keys a"
  "obs_keys (filter_dose b) = obs_keys b"
  "obs_keys (filter_replicates c) = obs_keys c"
  by (simp_all add: filter_invalid_smiles_def filter_dose_def filter_replicates_def Let_def)

text \<open>The dictionary holds every identity of the frame, so the lookup never raises.\<close>

lemma remove_invalid_smiles_eq:
  "remove_invalid_smiles chk df = Inr (map (\<lambda>r. chk (canonical_smiles r)) df)"
proof -
  have "lookup_all
          (map_of (zip (np_unique (map canonical_smiles df))
                       (map chk (np_unique (map canonical_smiles df)))))
          (map canonical_smiles df) = Inr (map chk (map canonical_smiles df))"
    by (rule lookup_all_total) (simp add: map_of_zip_map np_unique_def)
  then show ?thesis by (simp add: remove_invalid_smiles_def Let_def comp_def)
qed

lemma filter_rdkit_eq:
  "filter_rdkit chk adata =
     Inr (adata\<lparr>obs := filter (\<lambda>r. chk (canonical_smiles r)) (obs adata)\<rparr>)"
  by (simp add: filter_rdkit_def remove_invalid_smiles_eq mask_select_map)

lemma join_and_filter_Inr:
  assumes "join_and_filter chk adata ref = Inr a5"
  shows "set (obs_keys a5) = insert ''canonical_smiles'' (set (obs_keys adata))
       \<and> (\<forall>r \<in> set (obs a5). \<exists>r0 \<in> set (obs adata).
             obs_name r0 = obs_name r \<and> pert_id r0 = pert_id r \<and> cell_id r0 = cell_id r
           \<and> pert_dose r0 = pert_dose r \<and> split r0 = split r)"
proof -
  from assms obtain a1 where m: "merge_step adata ref = Inr a1"
    and f: "filter_rdkit chk (filter_replicates (filter_dose (filter_invalid_smiles a1))) = Inr a5"
    by (auto simp: join_and_filter_def split: sum.splits)
  from f have k5: "obs_keys a5 = obs_keys a1"
    by (auto simp: filter_rdkit_eq obs_keys_filters)
  from f have "set (obs a5) \<subseteq> set (obs (filter_invalid_smiles a1))"
    by (auto simp: filter_rdkit_eq obs_filter_replicates obs_filter_dose)
  then have sub: "set (obs a5) \<subseteq>
      (\<lambda>r. astype_row (with_smiles r (case matches ref (pert_id r) of [] \<Rightarrow> None | s # _ \<Rightarrow> s)))
        ` set (obs adata)"
    by (auto simp: obs_filter_invalid_smiles merge_step_Inr [OF m] simp del: set_simps)
  have "\<forall>r \<in> set (obs a5). \<exists>r0 \<in> set (obs adata).
             obs_name r0 = obs_name r \<and> pert_id r0 = pert_id r \<and> cell_id r0 = cell_id r
           \<and> pert_dose r0 = pert_dose r \<and> split r0 = split r"
  proof
    fix r assume "r \<in> set (obs a5)"
    with sub obtain r0 where "r0 \<in> set (obs adata)"
      and "r = astype_row (with_smiles r0 (case matches ref (pert_id r0) of [] \<Rightarrow> None | s # _ \<Rightarrow> s))"
      by auto
    then show "\<exists>r0 \<in> set (obs adata).
             obs_name r0 = obs_name r \<and> pert_id r0 = pert_id r \<and> cell_id r0 = cell_id r
           \<and> pert_dose r0 = pert_dose r \<and> split r0 = split r"
      by (intro bexI [of _ r0]) (simp_all add: astype_row_def)
  qed
  with merge_step_keys [OF m] k5 show ?thesis by (simp add: set_add_key)
qed

subsection \<open>The split cells\<close>

lemma loc_set_split_map:
  "loc_set_split rows (map P rows) v = map (\<lambda>r. if P r then r\<lparr>split := v\<rparr> else r) rows"
  by (simp add: loc_set_split_def zip_map_same comp_def)

lemma loc_set_split1_map:
  "loc_set_split1 (map f rows) (map P rows) v =
     map (\<lambda>r. if P r then (f r)\<lparr>split1 := v\<rparr> else f r) rows"
  by (induction rows) (simp_all add: loc_set_split1_def)

lemma add_split_present: "''split'' \<in> set (obs_keys a) \<Longrightarrow> add_split tts a = Inr a"
  by (simp add: add_split_def)

lemma add_split_obs:
  assumes "''split'' \<notin> set (obs_keys adata)" and "add_split tts adata = Inr adata'"
  shows "\<exists>drugs_train drugs_tmp drugs_val drugs_test.
           tts (2 / 10) 42 (np_unique (map canonical_smiles (obs adata))) = Inr (drugs_train, drugs_tmp)
         \<and> tts (5 / 10) 42 drugs_tmp = Inr (drugs_val, drugs_test)
         \<and> obs adata' =
             map (\<lambda>r. r\<lparr>split :=
                    (if canonical_smiles r \<in> set drugs_test then ''ood''
                     else if canonical_smiles r \<in> set drugs_val then ''test'' else ''train'')\<rparr>)
               (obs adata)"
proof -
  from assms obtain drugs_train drugs_tmp where
    t1: "tts (2 / 10) 42 (np_unique (map canonical_smiles (obs adata))) = Inr (drugs_train, drugs_tmp)"
    by (auto simp: add_split_def Let_def split: sum.splits)
  with assms obtain drugs_val drugs_test where
    t2: "tts (5 / 10) 42 drugs_tmp = Inr (drugs_val, drugs_test)"
    by (auto simp: add_split_def Let_def split: sum.splits)
  from assms t1 t2 have "obs adata' =
      map (\<lambda>r. r\<lparr>split :=
             (if canonical_smiles r \<in> set drugs_test then ''ood''
              else if canonical_smiles r \<in> set drugs_val then ''test'' else ''train'')\<rparr>)
        (obs adata)"
    by (auto simp: add_split_def Let_def isin_map loc_set_split_map comp_def)
  with t1 t2 show ?thesis by blast
qed

lemma add_split_length: "add_split tts a = Inr a' \<Longrightarrow> length (obs a') = length (obs a)"
proof (cases "''split'' \<in> set (obs_keys a)")
  case True
  assume "add_split tts a = Inr a'"
  with True show ?thesis by (simp add: add_split_present)
next
  case False
  assume "add_split tts a = Inr a'"
  with False add_split_obs [of a tts a'] show ?thesis by auto
qed

lemma shrink_cond_eq:
  "shrink_cond rows =
     map (\<lambda>r. split r = ''test'' \<and>
            (count_list (map pert_id (filter (\<lambda>r'. split r' = ''test'') rows)) (pert_id r)
               < pert_count_treshold \<or>
             count_list (map cell_id (filter (\<lambda>r'. split r' = ''test'') rows)) (cell_id r)
               < cov_count_treshold)) rows"
proof -
  have sel: "\<And>f. mask_select (map f rows) (map (\<lambda>x. split x = ''test'') rows)
               = map f (filter (\<lambda>r'. split r' = ''test'') rows)"
    by (simp add: mask_select_map2)
  have mem: "\<And>r f. r \<in> set rows \<Longrightarrow> split r = ''test'' \<Longrightarrow>
               f r \<in> f ` set (filter (\<lambda>r'. split r' = ''test'') rows)"
    by simp
  show ?thesis
    unfolding shrink_cond_def Let_def isin_map
    by (simp add: sel map2_map_same set_index_where_below) (use mem in blast)
qed

text \<open>
  The fixup in one formula: a row gets \<^verbatim>\<open>split1 = 'train'\<close> when it is a test row whose
  perturbation or cell type is rare among the test rows, and its \<^verbatim>\<open>split\<close> otherwise.
\<close>

lemma shrink_back_obs:
  "obs (shrink_back adata) =
     map (\<lambda>r. r\<lparr>split1 :=
            (if split r = ''test'' \<and>
                (length (filter (\<lambda>r'. split r' = ''test'' \<and> pert_id r' = pert_id r) (obs adata)) < 5 \<or>
                 length (filter (\<lambda>r'. split r' = ''test'' \<and> cell_id r' = cell_id r) (obs adata)) < 20)
             then ''train'' else split r)\<rparr>) (obs adata)"
  unfolding shrink_back_def Let_def shrink_cond_eq count_list_map_filter_conj
  by (simp add: loc_set_split1_map pert_count_treshold_def cov_count_treshold_def)

lemma loc_labels_set_Inr:
  "loc_labels_set rows labels v = Inr rows' \<Longrightarrow>
     rows' = map (\<lambda>r. if obs_name r \<in> set labels then r\<lparr>random_split := v\<rparr> else r) rows"
  by (auto simp: loc_labels_set_def split: if_splits)

lemma add_random_split_Inr:
  assumes "add_random_split tts a = Inr out"
  shows "map (\<lambda>r. r\<lparr>random_split := []\<rparr>) (obs out) = map (\<lambda>r. r\<lparr>random_split := []\<rparr>) (obs a)"
proof -
  from assms obtain rows1 rows2 rows3 l1 l2 l3 v1 v2 v3 where
    1: "loc_labels_set (map (\<lambda>r. r\<lparr>random_split := []\<rparr>) (obs a)) l1 v1 = Inr rows1"
    and 2: "loc_labels_set rows1 l2 v2 = Inr rows2"
    and 3: "loc_labels_set rows2 l3 v3 = Inr rows3"
    and o: "obs out = rows3"
    by (auto simp: add_random_split_def Let_def split: sum.splits)
  show ?thesis
    unfolding o loc_labels_set_Inr [OF 3] loc_labels_set_Inr [OF 2] loc_labels_set_Inr [OF 1]
    by (simp add: comp_def)
qed

subsection \<open>The embedding loop\<close>

lemma compute_all_append:
  "compute_all E (pre @ rest) w out =
     (case compute_all E pre w out of
        (None, w', out') \<Rightarrow> compute_all E rest w' out'
      | (Some e, w', out') \<Rightarrow> (Some e, w', out'))"
proof (induction pre arbitrary: w out)
  case Nil
  show ?case by simp
next
  case (Cons d pre)
  then show ?case
    by (cases d) (simp split: prod.splits option.splits exn.splits)
qed

lemma compute_all_completes:
  assumes "\<forall>d w. fst (makedirs E d w) = None"
    and "\<forall>a b c w m. fst (compute_rdkit_embeddings E a b c w) \<noteq> Some (BaseException m)"
  shows "fst (compute_all E ds w out) = None"
proof (induction ds arbitrary: w out)
  case Nil
  show ?case by simp
next
  case (Cons d ds)
  obtain dataset smiles_key where d: "d = (dataset, smiles_key)" by (cases d)
  obtain w1 where m: "makedirs E (path_dirname E (output_path E dataset)) w = (None, w1)"
    using assms(1) by (metis fst_conv surj_pair)
  show ?case
  proof (cases "compute_rdkit_embeddings E (h5ad_path E dataset) (output_path E dataset) smiles_key w1")
    case (Pair r w2)
    with assms(2) have "\<And>m. r \<noteq> Some (BaseException m)" by (metis fst_conv)
    with Pair m d Cons.IH show ?thesis
      by (cases r) (auto split: exn.splits)
  qed
qed

section \<open>Reference join and validity filter\<close>

text \<open>
  C4. Every row that is left after the merge and the four filters has an identity that
  is none of \<^verbatim>\<open>-666\<close>, \<^verbatim>\<open>restricted\<close>, \<^verbatim>\<open>nan\<close>, that was a string and not NaN in the
  merged frame, that RDKit parses and sanitizes, and that at least six rows of the
  final table carry; and its dose is not \<^verbatim>\<open>-666\<close>.
\<close>

theorem retained_rows_valid:
  assumes run: "join_and_filter (check_smiles MolFromSmiles SanitizeMol) adata ref = Inr out"
    and r: "r \<in> set (obs out)"
  shows "canonical_smiles r \<notin> {''-666'', ''restricted'', ''nan''}
       \<and> (\<exists>r0 \<in> set (merge_left (obs adata) ref). \<exists>s. canonical_smiles r0 = Some s \<and> r = with_smiles r0 s)
       \<and> (\<exists>m. MolFromSmiles (canonical_smiles r) = Some m \<and> SanitizeMol m)
       \<and> 6 \<le> length (filter (\<lambda>r'. canonical_smiles r' = canonical_smiles r) (obs out))
       \<and> pert_dose r \<noteq> - 666"
proof -
  let ?chk = "check_smiles MolFromSmiles SanitizeMol"
  from run obtain merged where m: "merge_step adata ref = Inr merged"
    and out: "filter_rdkit ?chk (filter_replicates (filter_dose (filter_invalid_smiles merged))) = Inr out"
    by (auto simp: join_and_filter_def split: sum.splits)
  let ?a2 = "filter_invalid_smiles merged"
  let ?a3 = "filter_dose ?a2"
  let ?a4 = "filter_replicates ?a3"
  from m have om: "obs merged = merge_left (obs adata) ref"
    by (auto simp: merge_step_def Let_def split: if_splits)
  from out have oo: "obs out = filter (\<lambda>r. ?chk (canonical_smiles r)) (obs ?a4)"
    by (auto simp: filter_rdkit_eq)
  from r oo have chk: "?chk (canonical_smiles r)" and r4: "r \<in> set (obs ?a4)" by auto
  from r4 have cnt: "6 \<le> count_list (map canonical_smiles (obs ?a3)) (canonical_smiles r)"
    and r3: "r \<in> set (obs ?a3)"
    by (auto simp: obs_filter_replicates)
  from r3 have dose: "pert_dose r \<noteq> - 666" and r2: "r \<in> set (obs ?a2)"
    by (auto simp: obs_filter_dose)
  from r2 have sent: "canonical_smiles r \<notin> set [''-666'', ''restricted'', ''nan'']"
    and "r \<in> astype_row ` set (obs merged)"
    by (auto simp: obs_filter_invalid_smiles simp del: set_simps)
  then obtain r0 where r0: "r0 \<in> set (obs merged)" "r = astype_row r0" by auto
  have "canonical_smiles r0 \<noteq> None"
  proof
    assume "canonical_smiles r0 = None"
    with r0 have "canonical_smiles r = ''nan''" by (simp add: astype_row_def)
    with sent show False by simp
  qed
  then obtain s where s: "canonical_smiles r0 = Some s" by auto
  with r0 have "r = with_smiles r0 s" by (simp add: astype_row_def)
  with r0 s om have orig: "\<exists>r0 \<in> set (merge_left (obs adata) ref). \<exists>s.
      canonical_smiles r0 = Some s \<and> r = with_smiles r0 s"
    by (intro bexI [of _ r0] exI [of _ s]) simp_all
  have "count_list (map canonical_smiles (obs out)) (canonical_smiles r)
        = count_list (map canonical_smiles (obs ?a4)) (canonical_smiles r)"
    using chk by (simp add: oo count_list_map_filter)
  also have "\<dots> = count_list (map canonical_smiles (obs ?a3)) (canonical_smiles r)"
    using cnt
    by (simp add: obs_filter_replicates
        count_list_map_filter [where P = "\<lambda>v. 6 \<le> count_list (map canonical_smiles (obs ?a3)) v"])
  finally have "6 \<le> length (filter (\<lambda>r'. canonical_smiles r' = canonical_smiles r) (obs out))"
    using cnt by (simp add: count_list_length_filter)
  moreover from chk have "\<exists>m. MolFromSmiles (canonical_smiles r) = Some m \<and> SanitizeMol m"
    by (auto simp: check_smiles_def split: option.splits if_splits)
  ultimately show ?thesis using sent dose orig by simp
qed

text \<open>On \<open>lincs_demo\<close> the six valid DMSO rows are left; the first of them is such a row.\<close>

theorem retained_rows_valid_witness:
  "join_and_filter (check_smiles parse_any sanitize_any) lincs_demo reference_demo
     = Inr lincs_demo_filtered
   \<and> mk_obs ''w1'' ''DMSO'' ''A375'' 10 ''train'' ''CS(=O)C'' \<in> set (obs lincs_demo_filtered)
   \<and> 6 \<le> length (filter (\<lambda>r'. canonical_smiles r' = ''CS(=O)C'') (obs lincs_demo_filtered))
   \<and> sanitize_any ''CS(=O)C''"
proof -
  have run: "join_and_filter (check_smiles parse_any sanitize_any) lincs_demo reference_demo
     = Inr lincs_demo_filtered"
    by code_simp
  have r: "mk_obs ''w1'' ''DMSO'' ''A375'' 10 ''train'' ''CS(=O)C'' \<in> set (obs lincs_demo_filtered)"
    by code_simp
  from retained_rows_valid [OF run r] run r show ?thesis
    by (simp add: mk_obs_def parse_any_def)
qed

text \<open>
  C6. A row whose key is in no reference row has NaN as identity in the merged table,
  and the validity filter keeps exactly the rows whose identity is neither NaN nor one
  of the three strings: no row with the identity \<^verbatim>\<open>nan\<close> is left.
\<close>

theorem unmatched_rows_dropped:
  assumes "merge_step adata ref = Inr merged"
  shows "(\<forall>r \<in> set (obs adata). pert_id r \<notin> fst ` set ref \<longrightarrow> with_smiles r None \<in> set (obs merged))
       \<and> obs (filter_invalid_smiles merged) =
           map astype_row
             (filter (\<lambda>r. canonical_smiles r \<notin> {None, Some ''-666'', Some ''restricted'', Some ''nan''})
                (obs merged))
       \<and> (\<forall>r \<in> set (obs (filter_invalid_smiles merged)). canonical_smiles r \<noteq> ''nan'')"
proof -
  let ?attach = "\<lambda>r::unit obs_row.
      with_smiles r (case matches ref (pert_id r) of [] \<Rightarrow> None | s # _ \<Rightarrow> s)"
  have o: "obs merged = map ?attach (obs adata)" using assms by (rule merge_step_Inr)
  have nomatch: "\<And>k. k \<notin> fst ` set ref \<Longrightarrow> matches ref k = []"
    by (auto simp: matches_def filter_empty_conv)
  have a: "\<forall>r \<in> set (obs adata). pert_id r \<notin> fst ` set ref \<longrightarrow> with_smiles r None \<in> set (obs merged)"
  proof (intro ballI impI)
    fix r assume "r \<in> set (obs adata)" "pert_id r \<notin> fst ` set ref"
    then have "?attach r = with_smiles r None" and "?attach r \<in> ?attach ` set (obs adata)"
      by (simp add: nomatch, intro imageI)
    then show "with_smiles r None \<in> set (obs merged)" by (simp add: o)
  qed
  have eq: "\<And>r::string option obs_row.
      (canonical_smiles (astype_row r) \<notin> set [''-666'', ''restricted'', ''nan''])
      = (canonical_smiles r \<notin> {None, Some ''-666'', Some ''restricted'', Some ''nan''})"
    by (case_tac "canonical_smiles r") (simp_all add: astype_row_def)
  have b: "obs (filter_invalid_smiles merged) =
           map astype_row
             (filter (\<lambda>r. canonical_smiles r \<notin> {None, Some ''-666'', Some ''restricted'', Some ''nan''})
                (obs merged))"
    unfolding obs_filter_invalid_smiles filter_map comp_def eq ..
  have c: "\<forall>r \<in> set (obs (filter_invalid_smiles merged)). canonical_smiles r \<noteq> ''nan''"
    by (simp add: obs_filter_invalid_smiles)
  from a b c show ?thesis by blast
qed

text \<open>In \<open>pair_demo\<close> the row \<^verbatim>\<open>w2\<close> has no reference entry; only \<^verbatim>\<open>w1\<close> passes the filter.\<close>

theorem unmatched_rows_dropped_witness:
  "merge_step pair_demo [(''DMSO'', Some ''CS(=O)C'')] = Inr pair_demo_merged
   \<and> mk_obs ''w2'' ''BRD-X'' ''A375'' 10 [] () \<in> set (obs pair_demo)
   \<and> ''BRD-X'' \<notin> fst ` set [(''DMSO'', Some ''CS(=O)C'')]
   \<and> mk_obs ''w2'' ''BRD-X'' ''A375'' 10 [] None \<in> set (obs pair_demo_merged)
   \<and> obs (filter_invalid_smiles pair_demo_merged) = [mk_obs ''w1'' ''DMSO'' ''A375'' 10 [] ''CS(=O)C'']"
proof -
  have m: "merge_step pair_demo [(''DMSO'', Some ''CS(=O)C'')] = Inr pair_demo_merged"
    by code_simp
  have r: "mk_obs ''w2'' ''BRD-X'' ''A375'' 10 [] () \<in> set (obs pair_demo)"
    by code_simp
  have k: "pert_id (mk_obs ''w2'' ''BRD-X'' ''A375'' 10 [] ()) \<notin> fst ` set [(''DMSO'', Some ''CS(=O)C'')]"
    by (simp add: mk_obs_def)
  have w: "with_smiles (mk_obs ''w2'' ''BRD-X'' ''A375'' 10 [] ()) None = mk_obs ''w2'' ''BRD-X'' ''A375'' 10 [] None"
    by (simp add: mk_obs_def with_smiles_def)
  have f: "map astype_row
             (filter (\<lambda>r. canonical_smiles r \<notin> {None, Some ''-666'', Some ''restricted'', Some ''nan''})
                (obs pair_demo_merged)) = [mk_obs ''w1'' ''DMSO'' ''A375'' 10 [] ''CS(=O)C'']"
    by (simp add: pair_demo_merged_def mk_obs_def astype_row_def with_smiles_def)
  from unmatched_rows_dropped [OF m]
  have 1: "\<forall>r \<in> set (obs pair_demo). pert_id r \<notin> fst ` set [(''DMSO'', Some ''CS(=O)C'')]
             \<longrightarrow> with_smiles r None \<in> set (obs pair_demo_merged)"
    and 2: "obs (filter_invalid_smiles pair_demo_merged) =
           map astype_row
             (filter (\<lambda>r. canonical_smiles r \<notin> {None, Some ''-666'', Some ''restricted'', Some ''nan''})
                (obs pair_demo_merged))"
    by blast+
  from 1 r k have "with_smiles (mk_obs ''w2'' ''BRD-X'' ''A375'' 10 [] ()) None \<in> set (obs pair_demo_merged)"
    by blast
  then have 3: "mk_obs ''w2'' ''BRD-X'' ''A375'' 10 [] None \<in> set (obs pair_demo_merged)"
    by (simp only: w)
  from 2 f have 4: "obs (filter_invalid_smiles pair_demo_merged) = [mk_obs ''w1'' ''DMSO'' ''A375'' 10 [] ''CS(=O)C'']"
    by simp
  have 5: "''BRD-X'' \<notin> fst ` set [(''DMSO'', Some ''CS(=O)C'')]" by simp
  from m r 3 4 5 show ?thesis by blast
qed

section \<open>Row count from load to write\<close>

text \<open>
  C5 says that the left join keeps exactly the original rows although the keys need
  not be unique on either side. A key that occurs twice in the reference table gives
  two merged rows for one observation, and the assignment of the longer frame to
  \<^verbatim>\<open>adata.obs\<close> raises ValueError.
\<close>

theorem left_join_duplicate_key_counterexample:
  "length (obs pair_demo) = 2
   \<and> length (merge_left (obs pair_demo) reference_twice) = 3
   \<and> merge_step pair_demo reference_twice = Inl ValueError"
  by code_simp

text \<open>
  C5, amended. Along every run of the notebook that completes, the merge leaves exactly
  the original rows in their order, each with the identity of its single matching
  reference row or with NaN (the assignment accepts no frame of another length), each of
  the four filters returns at most the rows it was given, and the three split cells
  keep the number of rows: the row count never grows from load to write.
\<close>

theorem row_count_never_grows:
  assumes "lincs_smiles chk tts adata ref = Inr out"
  shows "\<exists>a1 a5 a6.
           merge_step adata ref = Inr a1
         \<and> filter_rdkit chk (filter_replicates (filter_dose (filter_invalid_smiles a1))) = Inr a5
         \<and> add_split tts a5 = Inr a6
         \<and> add_random_split tts (shrink_back a6) = Inr out
         \<and> obs a1 = map (\<lambda>r. with_smiles r (case matches ref (pert_id r) of [] \<Rightarrow> None | s # _ \<Rightarrow> s))
                       (obs adata)
         \<and> length (obs a1) = length (obs adata)
         \<and> length (obs (filter_invalid_smiles a1)) \<le> length (obs a1)
         \<and> length (obs (filter_dose (filter_invalid_smiles a1))) \<le> length (obs (filter_invalid_smiles a1))
         \<and> length (obs (filter_replicates (filter_dose (filter_invalid_smiles a1))))
             \<le> length (obs (filter_dose (filter_invalid_smiles a1)))
         \<and> length (obs a5) \<le> length (obs (filter_replicates (filter_dose (filter_invalid_smiles a1))))
         \<and> length (obs a6) = length (obs a5)
         \<and> length (obs (shrink_back a6)) = length (obs a6)
         \<and> length (obs out) = length (obs (shrink_back a6))
         \<and> length (obs out) \<le> length (obs adata)"
proof -
  from assms obtain a5 a6 where jf: "join_and_filter chk adata ref = Inr a5"
    and s: "add_split tts a5 = Inr a6"
    and rs: "add_random_split tts (shrink_back a6) = Inr out"
    by (auto simp: lincs_smiles_def split: sum.splits)
  from jf obtain a1 where m: "merge_step adata ref = Inr a1"
    and f: "filter_rdkit chk (filter_replicates (filter_dose (filter_invalid_smiles a1))) = Inr a5"
    by (auto simp: join_and_filter_def split: sum.splits)
  have o1: "obs a1 = map (\<lambda>r. with_smiles r (case matches ref (pert_id r) of [] \<Rightarrow> None | s # _ \<Rightarrow> s))
                       (obs adata)"
    using m by (rule merge_step_Inr)
  then have l1: "length (obs a1) = length (obs adata)" by simp
  have l2: "length (obs (filter_invalid_smiles a1)) \<le> length (obs a1)"
    using length_filter_le [of _ "map astype_row (obs a1)"]
    by (simp add: obs_filter_invalid_smiles del: set_simps)
  have l3: "length (obs (filter_dose (filter_invalid_smiles a1))) \<le> length (obs (filter_invalid_smiles a1))"
    by (simp add: obs_filter_dose)
  have l4: "length (obs (filter_replicates (filter_dose (filter_invalid_smiles a1))))
             \<le> length (obs (filter_dose (filter_invalid_smiles a1)))"
    by (simp add: obs_filter_replicates)
  from f have l5: "length (obs a5) \<le> length (obs (filter_replicates (filter_dose (filter_invalid_smiles a1))))"
    by (auto simp: filter_rdkit_eq)
  have l6: "length (obs a6) = length (obs a5)" using s by (rule add_split_length)
  have l7: "length (obs (shrink_back a6)) = length (obs a6)" by (simp add: shrink_back_obs)
  have l8: "length (obs out) = length (obs (shrink_back a6))"
    using add_random_split_Inr [OF rs, THEN arg_cong, of length] by simp
  from l1 l2 l3 l4 l5 l6 l7 l8 have "length (obs out) \<le> length (obs adata)" by linarith
  with m f s rs o1 l1 l2 l3 l4 l5 l6 l7 l8 show ?thesis by blast
qed

text \<open>The run on \<open>lincs_demo\<close> completes and goes from ten rows to six.\<close>

theorem row_count_never_grows_witness:
  "lincs_smiles (check_smiles parse_any sanitize_any) halves lincs_demo reference_demo
     = Inr lincs_demo_out
   \<and> length (obs lincs_demo_out) \<le> length (obs lincs_demo)
   \<and> length (obs lincs_demo) = 10 \<and> length (obs lincs_demo_out) = 6"
proof -
  have run: "lincs_smiles (check_smiles parse_any sanitize_any) halves lincs_demo reference_demo
     = Inr lincs_demo_out"
    by code_simp
  from row_count_never_grows [OF run]
  have le: "length (obs lincs_demo_out) \<le> length (obs lincs_demo)" by blast
  have "length (obs lincs_demo) = 10" and "length (obs lincs_demo_out) = 6"
    by code_simp+
  with run le show ?thesis by blast
qed

section \<open>An existing split column\<close>

text \<open>
  C10. When the table has a column \<^verbatim>\<open>split\<close> on load, the split cell returns the filtered
  table as it is, whatever \<^verbatim>\<open>train_test_split\<close> would return, and every row that is
  written has the name and the \<^verbatim>\<open>split\<close> value of a row that was loaded.
\<close>

theorem existing_split_carried_through:
  assumes "''split'' \<in> set (obs_keys adata)" and "lincs_smiles chk tts adata ref = Inr out"
  shows "(\<exists>filtered. join_and_filter chk adata ref = Inr filtered
            \<and> (\<forall>tts'. add_split tts' filtered = Inr filtered))
       \<and> (\<forall>r \<in> set (obs out). \<exists>r0 \<in> set (obs adata). obs_name r0 = obs_name r \<and> split r0 = split r)"
proof -
  from assms(2) obtain a5 a6 where jf: "join_and_filter chk adata ref = Inr a5"
    and s: "add_split tts a5 = Inr a6"
    and rs: "add_random_split tts (shrink_back a6) = Inr out"
    by (auto simp: lincs_smiles_def split: sum.splits)
  from join_and_filter_Inr [OF jf] assms(1) have k: "''split'' \<in> set (obs_keys a5)"
    and orig: "\<forall>r \<in> set (obs a5). \<exists>r0 \<in> set (obs adata). obs_name r0 = obs_name r \<and> split r0 = split r"
    by auto
  from k have same: "\<forall>tts'. add_split tts' a5 = Inr a5" by (simp add: add_split_present)
  with s have a6: "a6 = a5" by simp
  have "map (\<lambda>r. (obs_name r, split r)) (obs out)
        = map (\<lambda>r. (obs_name r, split r)) (map (\<lambda>r. r\<lparr>random_split := []\<rparr>) (obs out))"
    by (simp add: comp_def)
  also have "\<dots> = map (\<lambda>r. (obs_name r, split r))
                      (map (\<lambda>r. r\<lparr>random_split := []\<rparr>) (obs (shrink_back a5)))"
    using add_random_split_Inr [OF rs] by (simp only: a6)
  also have "\<dots> = map (\<lambda>r. (obs_name r, split r)) (obs a5)"
    by (simp add: shrink_back_obs comp_def)
  finally have eq: "map (\<lambda>r. (obs_name r, split r)) (obs out)
                    = map (\<lambda>r. (obs_name r, split r)) (obs a5)" .
  have "\<forall>r \<in> set (obs out). \<exists>r0 \<in> set (obs adata). obs_name r0 = obs_name r \<and> split r0 = split r"
  proof
    fix r assume "r \<in> set (obs out)"
    then have "(obs_name r, split r) \<in> set (map (\<lambda>r. (obs_name r, split r)) (obs out))" by force
    with eq have "(obs_name r, split r) \<in> set (map (\<lambda>r. (obs_name r, split r)) (obs a5))" by simp
    then obtain r5 where "r5 \<in> set (obs a5)" "obs_name r5 = obs_name r" "split r5 = split r" by auto
    with orig show "\<exists>r0 \<in> set (obs adata). obs_name r0 = obs_name r \<and> split r0 = split r"
      by force
  qed
  with jf same show ?thesis by blast
qed

text \<open>
  \<open>lincs_demo\<close> has the column; the labels written are the labels loaded, although
  \<open>halves\<close> would have put the single identity into the train group.
\<close>

theorem existing_split_carried_through_witness:
  "''split'' \<in> set (obs_keys lincs_demo)
   \<and> lincs_smiles (check_smiles parse_any sanitize_any) halves lincs_demo reference_demo
       = Inr lincs_demo_out
   \<and> add_split halves lincs_demo_filtered = Inr lincs_demo_filtered
   \<and> map split (obs lincs_demo_out) = [''train'', ''train'', ''train'', ''test'', ''test'', ''test'']"
proof -
  have k: "''split'' \<in> set (obs_keys lincs_demo)" by code_simp
  have run: "lincs_smiles (check_smiles parse_any sanitize_any) halves lincs_demo reference_demo
     = Inr lincs_demo_out"
    by code_simp
  have jf: "join_and_filter (check_smiles parse_any sanitize_any) lincs_demo reference_demo
     = Inr lincs_demo_filtered"
    by code_simp
  from existing_split_carried_through [OF k run] jf
  have same: "add_split halves lincs_demo_filtered = Inr lincs_demo_filtered" by auto
  have "map split (obs lincs_demo_out) = [''train'', ''train'', ''train'', ''test'', ''test'', ''test'']"
    by code_simp
  with k run same show ?thesis by blast
qed

section \<open>Identity-based split\<close>

text \<open>
  C1. When the split cell assigns the labels, the label of a row is a function of its
  identity alone: the distinct identities are handed to \<^verbatim>\<open>train_test_split\<close> twice, a
  row is \<^verbatim>\<open>ood\<close> when its identity is in the last group, \<^verbatim>\<open>test\<close> when it is in the
  second, \<^verbatim>\<open>train\<close> otherwise. Every row has one of the three labels, two rows with the
  same identity have the same label, and the identities are untouched.
\<close>

theorem identity_split_single_label:
  assumes "''split'' \<notin> set (obs_keys adata)" and "add_split tts adata = Inr adata'"
  shows "(\<exists>drugs_train drugs_tmp drugs_val drugs_test.
            tts (2 / 10) 42 (np_unique (map canonical_smiles (obs adata))) = Inr (drugs_train, drugs_tmp)
          \<and> tts (5 / 10) 42 drugs_tmp = Inr (drugs_val, drugs_test)
          \<and> (\<forall>r \<in> set (obs adata').
                split r = (if canonical_smiles r \<in> set drugs_test then ''ood''
                           else if canonical_smiles r \<in> set drugs_val then ''test'' else ''train'')))
       \<and> (\<forall>r \<in> set (obs adata'). split r \<in> {''train'', ''test'', ''ood''})
       \<and> (\<forall>r1 \<in> set (obs adata'). \<forall>r2 \<in> set (obs adata').
             canonical_smiles r1 = canonical_smiles r2 \<longrightarrow> split r1 = split r2)
       \<and> map canonical_smiles (obs adata') = map canonical_smiles (obs adata)"
proof -
  from add_split_obs [OF assms] obtain drugs_train drugs_tmp drugs_val drugs_test where
    t1: "tts (2 / 10) 42 (np_unique (map canonical_smiles (obs adata))) = Inr (drugs_train, drugs_tmp)"
    and t2: "tts (5 / 10) 42 drugs_tmp = Inr (drugs_val, drugs_test)"
    and o: "obs adata' =
             map (\<lambda>r. r\<lparr>split :=
                    (if canonical_smiles r \<in> set drugs_test then ''ood''
                     else if canonical_smiles r \<in> set drugs_val then ''test'' else ''train'')\<rparr>)
               (obs adata)"
    by blast
  have a: "\<forall>r \<in> set (obs adata').
                split r = (if canonical_smiles r \<in> set drugs_test then ''ood''
                           else if canonical_smiles r \<in> set drugs_val then ''test'' else ''train'')"
    by (auto simp: o)
  then have b: "\<forall>r \<in> set (obs adata'). split r \<in> {''train'', ''test'', ''ood''}"
    by simp
  have c: "\<forall>r1 \<in> set (obs adata'). \<forall>r2 \<in> set (obs adata').
             canonical_smiles r1 = canonical_smiles r2 \<longrightarrow> split r1 = split r2"
  proof (intro ballI impI)
    fix r1 r2
    assume m1: "r1 \<in> set (obs adata')" and m2: "r2 \<in> set (obs adata')"
      and e: "canonical_smiles r1 = canonical_smiles r2"
    from a m1 have s1: "split r1 = (if canonical_smiles r1 \<in> set drugs_test then ''ood''
        else if canonical_smiles r1 \<in> set drugs_val then ''test'' else ''train'')"
      by (rule bspec)
    from a m2 have s2: "split r2 = (if canonical_smiles r2 \<in> set drugs_test then ''ood''
        else if canonical_smiles r2 \<in> set drugs_val then ''test'' else ''train'')"
      by (rule bspec)
    show "split r1 = split r2" by (simp only: s1 s2 e)
  qed
  have d: "map canonical_smiles (obs adata') = map canonical_smiles (obs adata)"
    by (simp add: o comp_def)
  from t1 t2 a b c d show ?thesis by blast
qed

text \<open>
  On \<open>unsplit_demo\<close> the rows \<^verbatim>\<open>w4\<close> and \<^verbatim>\<open>w6\<close> share an identity and both become test
  rows.
\<close>

theorem identity_split_single_label_witness:
  "''split'' \<notin> set (obs_keys unsplit_demo)
   \<and> add_split halves unsplit_demo = Inr unsplit_demo_labelled
   \<and> canonical_smiles (obs unsplit_demo_labelled ! 3) = canonical_smiles (obs unsplit_demo_labelled ! 5)
   \<and> split (obs unsplit_demo_labelled ! 3) = split (obs unsplit_demo_labelled ! 5)
   \<and> map split (obs unsplit_demo_labelled) = [''train'', ''train'', ''train'', ''test'', ''ood'', ''test'']"
proof -
  have k: "''split'' \<notin> set (obs_keys unsplit_demo)" by code_simp
  have run: "add_split halves unsplit_demo = Inr unsplit_demo_labelled" by code_simp
  have m3: "obs unsplit_demo_labelled ! 3 \<in> set (obs unsplit_demo_labelled)" by code_simp
  have m5: "obs unsplit_demo_labelled ! 5 \<in> set (obs unsplit_demo_labelled)" by code_simp
  have s: "canonical_smiles (obs unsplit_demo_labelled ! 3) = canonical_smiles (obs unsplit_demo_labelled ! 5)"
    by code_simp
  from identity_split_single_label [OF k run]
  have "\<forall>r1 \<in> set (obs unsplit_demo_labelled). \<forall>r2 \<in> set (obs unsplit_demo_labelled).
             canonical_smiles r1 = canonical_smiles r2 \<longrightarrow> split r1 = split r2"
    by blast
  with m3 m5 s have e: "split (obs unsplit_demo_labelled ! 3) = split (obs unsplit_demo_labelled ! 5)"
    by blast
  have "map split (obs unsplit_demo_labelled) = [''train'', ''train'', ''train'', ''test'', ''ood'', ''test'']"
    by code_simp
  with k run s e show ?thesis by blast
qed

section \<open>Shrink-back\<close>

text \<open>
  C2 says that the fixup treats the ood group like the test group. In \<open>shrink_demo\<close> the
  only ood row has a perturbation and a cell type that occur once among the ood rows,
  under both thresholds, and it stays \<^verbatim>\<open>ood\<close> in \<^verbatim>\<open>split1\<close>.
\<close>

theorem shrink_back_ood_counterexample:
  "length (filter (\<lambda>r. split r = ''ood'' \<and> pert_id r = ''BRD-R'') (obs shrink_demo)) < pert_count_treshold
   \<and> length (filter (\<lambda>r. split r = ''ood'' \<and> cell_id r = ''HS27A'') (obs shrink_demo)) < cov_count_treshold
   \<and> map (\<lambda>r. (pert_id r, cell_id r, split r, split1 r))
         (filter (\<lambda>r. split r = ''ood'') (obs (shrink_back shrink_demo)))
       = [(''BRD-R'', ''HS27A'', ''ood'', ''ood'')]"
  by code_simp

text \<open>
  C2, amended. The fixup is applied to the test group only: the rows are counted per
  \<^verbatim>\<open>pert_id\<close> and per \<^verbatim>\<open>cell_id\<close> among the rows labelled \<^verbatim>\<open>test\<close>, every test row of a
  perturbation with a count under \<open>pert_count_treshold\<close> or of a cell type with a count
  under \<open>cov_count_treshold\<close> gets \<^verbatim>\<open>split1 = 'train'\<close>, and a row labelled \<^verbatim>\<open>ood\<close>
  keeps its label.
\<close>

theorem shrink_back_test_group_only:
  "(\<forall>r \<in> set (obs (shrink_back adata)). split r = ''test'' \<longrightarrow>
      length (filter (\<lambda>r'. split r' = ''test'' \<and> pert_id r' = pert_id r) (obs adata)) < pert_count_treshold
      \<longrightarrow> split1 r = ''train'')
  \<and> (\<forall>r \<in> set (obs (shrink_back adata)). split r = ''test'' \<longrightarrow>
      length (filter (\<lambda>r'. split r' = ''test'' \<and> cell_id r' = cell_id r) (obs adata)) < cov_count_treshold
      \<longrightarrow> split1 r = ''train'')
  \<and> (\<forall>r \<in> set (obs (shrink_back adata)). split r = ''ood'' \<longrightarrow> split1 r = ''ood'')"
  by (simp add: shrink_back_obs pert_count_treshold_def cov_count_treshold_def)

text \<open>The test row \<^verbatim>\<open>t20\<close> of \<open>shrink_demo\<close> is the only one of its perturbation.\<close>

theorem shrink_back_test_group_only_witness:
  "(mk_obs ''t20'' ''BRD-Q'' ''A375'' 10 ''test'' ''CCN'')\<lparr>split1 := ''train''\<rparr>
     \<in> set (obs (shrink_back shrink_demo))
   \<and> length (filter (\<lambda>r'. split r' = ''test'' \<and> pert_id r' = ''BRD-Q'') (obs shrink_demo))
       < pert_count_treshold
   \<and> split1 ((mk_obs ''t20'' ''BRD-Q'' ''A375'' 10 ''test'' ''CCN'')\<lparr>split1 := ''train''\<rparr>) = ''train''"
proof -
  let ?r = "(mk_obs ''t20'' ''BRD-Q'' ''A375'' 10 ''test'' ''CCN'')\<lparr>split1 := ''train''\<rparr>"
  have m: "?r \<in> set (obs (shrink_back shrink_demo))" by code_simp
  have c: "length (filter (\<lambda>r'. split r' = ''test'' \<and> pert_id r' = ''BRD-Q'') (obs shrink_demo))
       < pert_count_treshold"
    by code_simp
  have s: "split ?r = ''test''" and p: "pert_id ?r = ''BRD-Q''" by (simp_all add: mk_obs_def)
  from shrink_back_test_group_only [of shrink_demo]
  have "\<forall>r \<in> set (obs (shrink_back shrink_demo)). split r = ''test'' \<longrightarrow>
      length (filter (\<lambda>r'. split r' = ''test'' \<and> pert_id r' = pert_id r) (obs shrink_demo)) < pert_count_treshold
      \<longrightarrow> split1 r = ''train''"
    by blast
  from this m have imp: "split ?r = ''test'' \<longrightarrow>
      length (filter (\<lambda>r'. split r' = ''test'' \<and> pert_id r' = pert_id ?r) (obs shrink_demo)) < pert_count_treshold
      \<longrightarrow> split1 ?r = ''train''"
    by (rule bspec)
  from c have c': "length (filter (\<lambda>r'. split r' = ''test'' \<and> pert_id r' = pert_id ?r) (obs shrink_demo))
      < pert_count_treshold"
    by (simp only: p)
  from imp s c' have "split1 ?r = ''train''" by blast
  with m c show ?thesis by blast
qed

text \<open>
  C3 says that a row is relabelled exactly when the count of its identity, or of its
  covariate, within its group is under the threshold. In \<open>pert_demo\<close> six test rows carry
  the identity \<^verbatim>\<open>CCO\<close> and twenty test rows the cell type \<^verbatim>\<open>A375\<close>, neither count is
  under its threshold, and the six rows are relabelled all the same: the cell counts
  per \<^verbatim>\<open>pert_id\<close>, and each of the two perturbations has three test rows.
\<close>

theorem shrink_back_identity_count_counterexample:
  "5 \<le> length (filter (\<lambda>r. split r = ''test'' \<and> canonical_smiles r = ''CCO'') (obs pert_demo))
   \<and> 20 \<le> length (filter (\<lambda>r. split r = ''test'' \<and> cell_id r = ''A375'') (obs pert_demo))
   \<and> map (\<lambda>r. (pert_id r, canonical_smiles r, split r, split1 r))
         (filter (\<lambda>r. canonical_smiles r = ''CCO'') (obs (shrink_back pert_demo)))
       = [(''BRD-A'', ''CCO'', ''test'', ''train''), (''BRD-A'', ''CCO'', ''test'', ''train''),
          (''BRD-A'', ''CCO'', ''test'', ''train''), (''BRD-B'', ''CCO'', ''test'', ''train''),
          (''BRD-B'', ''CCO'', ''test'', ''train''), (''BRD-B'', ''CCO'', ''test'', ''train'')]"
  by code_simp

text \<open>
  C3, amended. A row labelled \<^verbatim>\<open>test\<close> gets \<^verbatim>\<open>split1 = 'train'\<close> exactly when fewer than 5
  test rows have its \<^verbatim>\<open>pert_id\<close> or fewer than 20 test rows have its \<^verbatim>\<open>cell_id\<close>, both
  counted on the column \<^verbatim>\<open>split\<close> as it was before the fixup; a row with another label
  keeps it. Nothing is counted again afterwards: in \<open>shrink_demo\<close> twenty test rows share
  a cell type, one of them is relabelled for its perturbation, and the other nineteen
  stay test rows although only nineteen rows of their cell type are left in the test
  group of \<^verbatim>\<open>split1\<close>.
\<close>

theorem shrink_back_union_single_pass:
  "(\<forall>r \<in> set (obs (shrink_back adata)). split r = ''test'' \<longrightarrow>
      (split1 r = ''train'') =
      (length (filter (\<lambda>r'. split r' = ''test'' \<and> pert_id r' = pert_id r) (obs adata)) < 5 \<or>
       length (filter (\<lambda>r'. split r' = ''test'' \<and> cell_id r' = cell_id r) (obs adata)) < 20))
   \<and> (\<forall>r \<in> set (obs (shrink_back adata)). split r \<noteq> ''test'' \<longrightarrow> split1 r = split r)
   \<and> (\<exists>r \<in> set (obs (shrink_back shrink_demo)).
        split1 r = ''test''
      \<and> length (filter (\<lambda>r'. split1 r' = ''test'' \<and> cell_id r' = cell_id r)
                  (obs (shrink_back shrink_demo))) < 20)"
proof -
  have a: "\<forall>r \<in> set (obs (shrink_back adata)). split r = ''test'' \<longrightarrow>
      (split1 r = ''train'') =
      (length (filter (\<lambda>r'. split r' = ''test'' \<and> pert_id r' = pert_id r) (obs adata)) < 5 \<or>
       length (filter (\<lambda>r'. split r' = ''test'' \<and> cell_id r' = cell_id r) (obs adata)) < 20)"
    by (simp add: shrink_back_obs)
  have a': "\<forall>r \<in> set (obs (shrink_back adata)). split r \<noteq> ''test'' \<longrightarrow> split1 r = split r"
    by (simp add: shrink_back_obs)
  have b: "\<exists>r \<in> set (obs (shrink_back shrink_demo)).
        split1 r = ''test''
      \<and> length (filter (\<lambda>r'. split1 r' = ''test'' \<and> cell_id r' = cell_id r)
                  (obs (shrink_back shrink_demo))) < 20"
    by code_simp
  from a a' b show ?thesis by blast
qed

text \<open>
  In \<open>shrink_demo\<close> the row \<^verbatim>\<open>t01\<close> stays a test row: nineteen test rows have its
  perturbation and twenty its cell type.
\<close>

theorem shrink_back_union_single_pass_witness:
  "(mk_obs ''t01'' ''BRD-P'' ''A375'' 10 ''test'' ''CCO'')\<lparr>split1 := ''test''\<rparr>
     \<in> set (obs (shrink_back shrink_demo))
   \<and> length (filter (\<lambda>r'. split r' = ''test'' \<and> pert_id r' = ''BRD-P'') (obs shrink_demo)) = 19
   \<and> length (filter (\<lambda>r'. split r' = ''test'' \<and> cell_id r' = ''A375'') (obs shrink_demo)) = 20
   \<and> (split1 ((mk_obs ''t01'' ''BRD-P'' ''A375'' 10 ''test'' ''CCO'')\<lparr>split1 := ''test''\<rparr>) = ''train'')
     = (length (filter (\<lambda>r'. split r' = ''test'' \<and> pert_id r' = ''BRD-P'') (obs shrink_demo)) < 5 \<or>
        length (filter (\<lambda>r'. split r' = ''test'' \<and> cell_id r' = ''A375'') (obs shrink_demo)) < 20)"
proof -
  let ?r = "(mk_obs ''t01'' ''BRD-P'' ''A375'' 10 ''test'' ''CCO'')\<lparr>split1 := ''test''\<rparr>"
  have m: "?r \<in> set (obs (shrink_back shrink_demo))" by code_simp
  have s: "split ?r = ''test''" and p: "pert_id ?r = ''BRD-P''" and c: "cell_id ?r = ''A375''"
    by (simp_all add: mk_obs_def)
  have n1: "length (filter (\<lambda>r'. split r' = ''test'' \<and> pert_id r' = ''BRD-P'') (obs shrink_demo)) = 19"
    by code_simp
  have n2: "length (filter (\<lambda>r'. split r' = ''test'' \<and> cell_id r' = ''A375'') (obs shrink_demo)) = 20"
    by code_simp
  from shrink_back_union_single_pass [of shrink_demo]
  have "\<forall>r \<in> set (obs (shrink_back shrink_demo)). split r = ''test'' \<longrightarrow>
      (split1 r = ''train'') =
      (length (filter (\<lambda>r'. split r' = ''test'' \<and> pert_id r' = pert_id r) (obs shrink_demo)) < 5 \<or>
       length (filter (\<lambda>r'. split r' = ''test'' \<and> cell_id r' = cell_id r) (obs shrink_demo)) < 20)"
    by blast
  from this m have "split ?r = ''test'' \<longrightarrow>
      (split1 ?r = ''train'') =
      (length (filter (\<lambda>r'. split r' = ''test'' \<and> pert_id r' = pert_id ?r) (obs shrink_demo)) < 5 \<or>
       length (filter (\<lambda>r'. split r' = ''test'' \<and> cell_id r' = cell_id ?r) (obs shrink_demo)) < 20)"
    by (rule bspec)
  with s have "(split1 ?r = ''train'') =
      (length (filter (\<lambda>r'. split r' = ''test'' \<and> pert_id r' = pert_id ?r) (obs shrink_demo)) < 5 \<or>
       length (filter (\<lambda>r'. split r' = ''test'' \<and> cell_id r' = cell_id ?r) (obs shrink_demo)) < 20)"
    by blast
  then have "(split1 ?r = ''train'') =
      (length (filter (\<lambda>r'. split r' = ''test'' \<and> pert_id r' = ''BRD-P'') (obs shrink_demo)) < 5 \<or>
       length (filter (\<lambda>r'. split r' = ''test'' \<and> cell_id r' = ''A375'') (obs shrink_demo)) < 20)"
    by (simp only: p c)
  with m n1 n2 show ?thesis by blast
qed

text \<open>
  C8. The fixup writes the column \<^verbatim>\<open>split1\<close> and nothing else: the column \<^verbatim>\<open>split\<close> is
  the same list as before, every row is the row it was up to \<^verbatim>\<open>split1\<close>, the only new
  column name is \<^verbatim>\<open>split1\<close>, and \<^verbatim>\<open>split1\<close> holds the row's \<^verbatim>\<open>split\<close> value or \<^verbatim>\<open>train\<close>.
\<close>

theorem shrink_back_writes_split1_only:
  "map split (obs (shrink_back adata)) = map split (obs adata)
   \<and> map (\<lambda>r. r\<lparr>split1 := []\<rparr>) (obs (shrink_back adata)) = map (\<lambda>r. r\<lparr>split1 := []\<rparr>) (obs adata)
   \<and> set (obs_keys (shrink_back adata)) = insert ''split1'' (set (obs_keys adata))
   \<and> (\<forall>r \<in> set (obs (shrink_back adata)). split1 r = split r \<or> split1 r = ''train'')"
proof -
  have "set (obs_keys (shrink_back adata)) = insert ''split1'' (set (obs_keys adata))"
    by (simp add: shrink_back_def Let_def set_add_key)
  then show ?thesis by (simp add: shrink_back_obs comp_def)
qed

theorem shrink_back_writes_split1_only_witness:
  "map split (obs (shrink_back shrink_demo)) = map split (obs shrink_demo)
   \<and> (mk_obs ''t20'' ''BRD-Q'' ''A375'' 10 ''test'' ''CCN'')\<lparr>split1 := ''train''\<rparr>
       \<in> set (obs (shrink_back shrink_demo))
   \<and> (mk_obs ''o1'' ''BRD-R'' ''HS27A'' 10 ''ood'' ''CS(=O)C'')\<lparr>split1 := ''ood''\<rparr>
       \<in> set (obs (shrink_back shrink_demo))"
proof -
  have "(mk_obs ''t20'' ''BRD-Q'' ''A375'' 10 ''test'' ''CCN'')\<lparr>split1 := ''train''\<rparr>
       \<in> set (obs (shrink_back shrink_demo))"
    and "(mk_obs ''o1'' ''BRD-R'' ''HS27A'' 10 ''ood'' ''CS(=O)C'')\<lparr>split1 := ''ood''\<rparr>
       \<in> set (obs (shrink_back shrink_demo))"
    by code_simp+
  with shrink_back_writes_split1_only [of shrink_demo] show ?thesis by blast
qed

text \<open>
  C9. Only a row labelled \<^verbatim>\<open>test\<close> can get another label in \<^verbatim>\<open>split1\<close>: a row labelled
  \<^verbatim>\<open>ood\<close> or \<^verbatim>\<open>train\<close> keeps its label, because the condition of the relabelling is
  conjoined with \<^verbatim>\<open>cond_test\<close>.
\<close>

theorem shrink_back_only_relabels_test:
  "\<forall>r \<in> set (obs (shrink_back adata)).
     (split1 r \<noteq> split r \<longrightarrow> split r = ''test'')
   \<and> (split r = ''ood'' \<longrightarrow> split1 r = ''ood'')
   \<and> (split r = ''train'' \<longrightarrow> split1 r = ''train'')"
  by (simp add: shrink_back_obs comp_def)

theorem shrink_back_only_relabels_test_witness:
  "(mk_obs ''o1'' ''BRD-R'' ''HS27A'' 10 ''ood'' ''CS(=O)C'')\<lparr>split1 := ''ood''\<rparr>
     \<in> set (obs (shrink_back shrink_demo))
   \<and> split ((mk_obs ''o1'' ''BRD-R'' ''HS27A'' 10 ''ood'' ''CS(=O)C'')\<lparr>split1 := ''ood''\<rparr>) = ''ood''
   \<and> split1 ((mk_obs ''o1'' ''BRD-R'' ''HS27A'' 10 ''ood'' ''CS(=O)C'')\<lparr>split1 := ''ood''\<rparr>) = ''ood''"
proof -
  let ?r = "(mk_obs ''o1'' ''BRD-R'' ''HS27A'' 10 ''ood'' ''CS(=O)C'')\<lparr>split1 := ''ood''\<rparr>"
  have m: "?r \<in> set (obs (shrink_back shrink_demo))" by code_simp
  have s: "split ?r = ''ood''" by (simp add: mk_obs_def)
  from shrink_back_only_relabels_test [of shrink_demo] m
  have "split ?r = ''ood'' \<longrightarrow> split1 ?r = ''ood''" by blast
  with s have "split1 ?r = ''ood''" by blast
  with m s show ?thesis by blast
qed

section \<open>A failing dataset in the embedding loop\<close>

text \<open>
  C7. When the datasets before one have been processed, its directory has been made,
  and \<^verbatim>\<open>compute_rdkit_embeddings\<close> raises an Exception on it, the loop writes the line
  \<^verbatim>\<open>Error processing <dataset>: <str(e)>\<close> and goes on with the remaining datasets exactly
  as it runs them from the state the call left. When no directory fails and no call
  raises something that is not an Exception, the loop reaches the end of the list.
\<close>

theorem embedding_failure_continues:
  "(compute_all E pre w out = (None, w0, out0)
    \<and> makedirs E (path_dirname E (output_path E dataset)) w0 = (None, w1)
    \<and> compute_rdkit_embeddings E (h5ad_path E dataset) (output_path E dataset) smiles_key w1
        = (Some (Exception msg), w2)
    \<longrightarrow> compute_all E (pre @ (dataset, smiles_key) # rest) w out
        = compute_all E rest w2 (out0 @ [''Error processing '' @ dataset @ '': '' @ msg]))
 \<and> ((\<forall>d w. fst (makedirs E d w) = None)
    \<and> (\<forall>a b c w m. fst (compute_rdkit_embeddings E a b c w) \<noteq> Some (BaseException m))
    \<longrightarrow> fst (compute_all E ds w out) = None)"
  by (simp add: compute_all_append error_line_def compute_all_completes)

text \<open>
  With \<open>outside_demo\<close> the second dataset of the notebook's list fails; the twelve
  datasets after it are processed, and the loop ends without exception.
\<close>

theorem embedding_failure_continues_witness:
  "compute_all outside_demo (take 1 datasets) [] [] = (None, [''embeddings/rdkit/lincs_smiles_rdkit2D_embedding.parquet''], [])
   \<and> compute_all outside_demo (take 1 datasets @ (''lincs_full_smiles.h5ad'', ''smiles'') # drop 2 datasets) [] []
     = compute_all outside_demo (drop 2 datasets)
         [''embeddings/rdkit/lincs_smiles_rdkit2D_embedding.parquet'']
         ([] @ [''Error processing lincs_full_smiles.h5ad: smiles''])
   \<and> fst (compute_all outside_demo datasets [] []) = None
   \<and> length (fst (snd (compute_all outside_demo datasets [] []))) = 13
   \<and> snd (snd (compute_all outside_demo datasets [] [])) = [''Error processing lincs_full_smiles.h5ad: smiles'']"
proof -
  let ?w0 = "[''embeddings/rdkit/lincs_smiles_rdkit2D_embedding.parquet'']"
  have pre: "compute_all outside_demo (take 1 datasets) [] [] = (None, ?w0, [])"
    by code_simp
  have mk: "makedirs outside_demo (path_dirname outside_demo (output_path outside_demo ''lincs_full_smiles.h5ad'')) ?w0
              = (None, ?w0)"
    by code_simp
  have raise: "compute_rdkit_embeddings outside_demo (h5ad_path outside_demo ''lincs_full_smiles.h5ad'')
                 (output_path outside_demo ''lincs_full_smiles.h5ad'') ''smiles'' ?w0
               = (Some (Exception ''smiles''), ?w0)"
    by code_simp
  have d: "\<forall>d w. fst (makedirs outside_demo d w) = None"
    by (simp add: outside_demo_def)
  have b: "\<forall>a b c w m. fst (compute_rdkit_embeddings outside_demo a b c w) \<noteq> Some (BaseException m)"
    by (simp add: outside_demo_def)
  note inst = embedding_failure_continues [of outside_demo "take 1 datasets" "[]" "[]" ?w0 "[]"
      "''lincs_full_smiles.h5ad''" ?w0 "''smiles''" "''smiles''" ?w0 "drop 2 datasets" datasets]
  from inst pre mk raise
  have 1: "compute_all outside_demo (take 1 datasets @ (''lincs_full_smiles.h5ad'', ''smiles'') # drop 2 datasets) [] []
     = compute_all outside_demo (drop 2 datasets) ?w0
         ([] @ [''Error processing '' @ ''lincs_full_smiles.h5ad'' @ '': '' @ ''smiles''])"
    by blast
  from inst d b have 2: "fst (compute_all outside_demo datasets [] []) = None"
    by blast
  have 3: "length (fst (snd (compute_all outside_demo datasets [] []))) = 13"
    by code_simp
  have 4: "snd (snd (compute_all outside_demo datasets [] [])) = [''Error processing lincs_full_smiles.h5ad: smiles'']"
    by code_simp
  from 1 have 5: "compute_all outside_demo (take 1 datasets @ (''lincs_full_smiles.h5ad'', ''smiles'') # drop 2 datasets) [] []
     = compute_all outside_demo (drop 2 datasets) ?w0
         ([] @ [''Error processing lincs_full_smiles.h5ad: smiles''])"
    by simp
  from pre 5 2 3 4 show ?thesis by blast
qed

end
